theory Spec2Isabelle
  imports Main "HOL-Library.AList" "HOL-Library.Multiset"
begin

section \<open>Export of legacy reviews from a split SQL dump\<close>

text \<open>
  A shallow embedding of \<^verbatim>\<open>scripts/export_salsamenteria_reviews_csv.py\<close>.
  A Python \<^verbatim>\<open>str\<close> is a \<^typ>\<open>string\<close>; one \<^typ>\<open>char\<close> stands for one code
  point, so the model covers text whose code points are below 256. A text file is the
  list of raw lines that iterating over the open file delivers (each one with its
  line terminator, if it has one). Every \<^verbatim>\<open>die\<close> and every exception the code
  can raise is a value of the type \<open>error\<close>.
\<close>

subsection \<open>Characters and the string methods the script uses\<close>

definition BS :: char where "BS = CHR 0x5C"
definition TAB :: char where "TAB = CHR 0x09"
definition NL :: char where "NL = CHR 0x0A"
definition CR :: char where "CR = CHR 0x0D"

text \<open>The SQL NULL marker and the block terminator of COPY text format.\<close>

definition NULL_FIELD :: string where "NULL_FIELD = [BS, CHR ''N'']"
definition TERMINATOR :: string where "TERMINATOR = [BS, CHR ''.'']"

text \<open>
  Whitespace as \<^verbatim>\<open>str.strip()\<close>, \<^verbatim>\<open>str.isspace()\<close> and the pattern \<^verbatim>\<open>\s\<close> see
  it, among the first 256 code points.
\<close>

definition is_space :: "char \<Rightarrow> bool" where
  "is_space c \<longleftrightarrow>
     c \<in> set [CHR 0x09, CHR 0x0A, CHR 0x0B, CHR 0x0C, CHR 0x0D, CHR 0x1C, CHR 0x1D,
              CHR 0x1E, CHR 0x1F, CHR 0x20, CHR 0x85, CHR 0xA0]"

definition is_digit :: "char \<Rightarrow> bool" where
  "is_digit c \<longleftrightarrow> (48::nat) \<le> of_char c \<and> of_char c \<le> (57::nat)"

definition is_lower_alnum :: "char \<Rightarrow> bool" where
  "is_lower_alnum c \<longleftrightarrow> is_digit c \<or> ((97::nat) \<le> of_char c \<and> of_char c \<le> (122::nat))"

text \<open>\<^verbatim>\<open>s.strip()\<close>, \<^verbatim>\<open>s.strip("_")\<close> and \<^verbatim>\<open>s.rstrip("\n")\<close>.\<close>

definition rstrip_chars :: "(char \<Rightarrow> bool) \<Rightarrow> string \<Rightarrow> string" where
  "rstrip_chars P s = rev (dropWhile P (rev s))"

definition strip_chars :: "(char \<Rightarrow> bool) \<Rightarrow> string \<Rightarrow> string" where
  "strip_chars P s = rstrip_chars P (dropWhile P s)"

definition strip :: "string \<Rightarrow> string" where
  "strip s = strip_chars is_space s"

definition rstrip_nl :: "string \<Rightarrow> string" where
  "rstrip_nl s = rstrip_chars (\<lambda>c. c = NL) s"

text \<open>\<^verbatim>\<open>s.lower()\<close> on the first 256 code points.\<close>

definition lower_char :: "char \<Rightarrow> char" where
  "lower_char c =
     (let n = (of_char c :: nat)
      in if (65 \<le> n \<and> n \<le> 90) \<or> (192 \<le> n \<and> n \<le> 222 \<and> n \<noteq> 215)
         then char_of (n + 32) else c)"

definition lower :: "string \<Rightarrow> string" where
  "lower s = map lower_char s"

text \<open>
  \<^verbatim>\<open>s.replace(old, new)\<close>: the occurrences of \<open>old\<close> are replaced from left to
  right, without overlap.
\<close>

fun replace_str :: "string \<Rightarrow> string \<Rightarrow> string \<Rightarrow> string" where
  "replace_str old new [] = (if old = [] then new else [])"
| "replace_str old new (c # cs) =
     (if old = [] then new @ c # replace_str old new cs
      else if take (length old) (c # cs) = old
        then new @ replace_str old new (drop (length old - 1) cs)
      else c # replace_str old new cs)"

text \<open>
  \<^verbatim>\<open>re.sub(r"[...]+", r, s)\<close> for a character class \<open>P\<close>: every maximal run of
  characters of the class becomes \<open>r\<close>.
\<close>

function sub_runs :: "(char \<Rightarrow> bool) \<Rightarrow> string \<Rightarrow> string \<Rightarrow> string" where
  "sub_runs P r [] = []"
| "sub_runs P r (c # cs) =
     (if P c then r @ sub_runs P r (dropWhile P cs) else c # sub_runs P r cs)"
  by pat_completeness auto
termination
  by (relation "measure (\<lambda>(P, r, s). length s)")
     (auto simp: less_Suc_eq_le length_dropWhile_le)

text \<open>\<^verbatim>\<open>s.split(sep)\<close> for a one-character separator: never an empty list.\<close>

fun split_on :: "char \<Rightarrow> string \<Rightarrow> string list" where
  "split_on sep [] = [[]]"
| "split_on sep (c # cs) =
     (if c = sep then [] # split_on sep cs
      else (case split_on sep cs of
              [] \<Rightarrow> [[c]]
            | x # xs \<Rightarrow> (c # x) # xs))"

text \<open>\<^verbatim>\<open>needle in s\<close> and \<^verbatim>\<open>s.startswith(p)\<close>.\<close>

definition startswith :: "string \<Rightarrow> string \<Rightarrow> bool" where
  "startswith s p \<longleftrightarrow> take (length p) s = p"


subsection \<open>Errors\<close>

text \<open>
  The first eight are the messages of \<^verbatim>\<open>die\<close> (which prints and raises
  \<^verbatim>\<open>SystemExit(2)\<close>); the others are the exceptions of the built-in operations the
  script applies to the fields of a row.
\<close>

datatype error =
    UnexpectedColumnCount nat nat
  | CopyBlockNotFound
  | CopyBlockNotTerminated
  | BusinessNotFound string "string list"
  | BusinessMultiple string "int list"
  | ReviewsColumnCount nat nat
  | NoLocationsFound int string
  | MissingInputFile
  | ValueError string
  | IndexError
  | KeyError int

subsection \<open>\<^verbatim>\<open>int(s)\<close> and \<^verbatim>\<open>row[i]\<close>\<close>

text \<open>
  \<^verbatim>\<open>int(s)\<close> on a string, base ten: surrounding whitespace is dropped, one sign
  is allowed, the digits may be grouped by single underscores.
\<close>

definition digit_val :: "char \<Rightarrow> nat" where
  "digit_val c = of_char c - 48"

fun dec_digits :: "nat \<Rightarrow> string \<Rightarrow> nat option" where
  "dec_digits acc [] = Some acc"
| "dec_digits acc [c] = (if is_digit c then Some (acc * 10 + digit_val c) else None)"
| "dec_digits acc (c # d # ds) =
     (if is_digit c then dec_digits (acc * 10 + digit_val c) (d # ds)
      else if c = CHR ''_'' \<and> is_digit d then dec_digits (acc * 10 + digit_val d) ds
      else None)"

definition dec_literal :: "string \<Rightarrow> nat option" where
  "dec_literal s =
     (case s of
        [] \<Rightarrow> None
      | c # cs \<Rightarrow> if is_digit c then dec_digits (digit_val c) cs else None)"

definition py_int :: "string \<Rightarrow> int option" where
  "py_int s =
     (case strip s of
        [] \<Rightarrow> None
      | c # cs \<Rightarrow>
          if c = CHR ''-'' then map_option (\<lambda>n. - int n) (dec_literal cs)
          else if c = CHR ''+'' then map_option int (dec_literal cs)
          else map_option int (dec_literal (c # cs)))"



subsection \<open>Field decoding and normalisation\<close>

definition decode_copy_text :: "string \<Rightarrow> string" where
  "decode_copy_text s =
     (let s1 = replace_str [BS, BS] [BS] s;
          s2 = replace_str [BS, CHR ''t''] [TAB] s1;
          s3 = replace_str [BS, CHR ''n''] [NL] s2;
          s4 = replace_str [BS, CHR ''r''] [CR] s3
      in s4)"

definition normalize_text :: "string \<Rightarrow> bool \<Rightarrow> string" where
  "normalize_text s keep_newlines =
     (let s1 = replace_str [CR] [NL] (replace_str [CR, NL] [NL] s);
          s2 = sub_runs (\<lambda>c. c = CHR '' '' \<or> c = TAB) '' '' s1;
          s3 = sub_runs (\<lambda>c. c = NL) [NL] s2;
          s4 = strip s3
      in if \<not> keep_newlines then replace_str [NL] [BS, CHR ''n''] s4 else s4)"

definition slugify :: "string \<Rightarrow> string" where
  "slugify s =
     (let s1 = lower (strip s);
          s2 = sub_runs (\<lambda>c. \<not> is_lower_alnum c) ''_'' s1;
          s3 = sub_runs (\<lambda>c. c = CHR ''_'') ''_'' s2;
          s4 = strip_chars (\<lambda>c. c = CHR ''_'') s3
      in if s4 = [] then ''location'' else s4)"

text \<open>
  What PostgreSQL writes for a text value in COPY text format, for the four
  characters \<open>decode_copy_text\<close> knows: the producer of the dump, not a function of
  the script.
\<close>

definition copy_escape_char :: "char \<Rightarrow> string" where
  "copy_escape_char c =
     (if c = BS then [BS, BS]
      else if c = TAB then [BS, CHR ''t'']
      else if c = NL then [BS, CHR ''n'']
      else if c = CR then [BS, CHR ''r'']
      else [c])"

definition copy_escape :: "string \<Rightarrow> string" where
  "copy_escape s = concat (map copy_escape_char s)"

subsection \<open>The header pattern \<^verbatim>\<open>COPY_START_RE\<close>\<close>

text \<open>
  \<^verbatim>\<open>^COPY\s+public\.(?P<table>[a-z0-9_]+)\s+\((?P<cols>.+)\)\s+FROM\s+stdin;\s*$\<close>
  matched at the start of the line. A run \<^verbatim>\<open>\s+\<close> or \<^verbatim>\<open>[a-z0-9_]+\<close> is
  followed in the pattern by something outside its class, so it takes the maximal
  run; the greedy \<^verbatim>\<open>.+\<close> takes the longest newline-free piece after which the
  rest of the pattern still matches; \<^verbatim>\<open>\s*$\<close> accepts exactly a rest of
  whitespace.
\<close>

fun literal :: "string \<Rightarrow> string \<Rightarrow> string option" where
  "literal [] s = Some s"
| "literal (p # ps) [] = None"
| "literal (p # ps) (c # cs) = (if p = c then literal ps cs else None)"

definition spaces1 :: "string \<Rightarrow> string option" where
  "spaces1 s =
     (case s of
        [] \<Rightarrow> None
      | c # cs \<Rightarrow> if is_space c then Some (dropWhile is_space cs) else None)"

definition is_table_char :: "char \<Rightarrow> bool" where
  "is_table_char c \<longleftrightarrow> is_lower_alnum c \<or> c = CHR ''_''"

definition match_tail :: "string \<Rightarrow> bool" where
  "match_tail s =
     (case literal '')'' s of None \<Rightarrow> False | Some r1 \<Rightarrow>
      (case spaces1 r1 of None \<Rightarrow> False | Some r2 \<Rightarrow>
      (case literal ''FROM'' r2 of None \<Rightarrow> False | Some r3 \<Rightarrow>
      (case spaces1 r3 of None \<Rightarrow> False | Some r4 \<Rightarrow>
      (case literal ''stdin;'' r4 of None \<Rightarrow> False | Some r5 \<Rightarrow>
         list_all is_space r5)))))"

fun match_cols :: "nat \<Rightarrow> string \<Rightarrow> string option" where
  "match_cols 0 r = None"
| "match_cols (Suc k) r =
     (if NL \<notin> set (take (Suc k) r) \<and> match_tail (drop (Suc k) r)
      then Some (take (Suc k) r) else match_cols k r)"

text \<open>The groups \<open>table\<close> and \<open>cols\<close> of a match, \<open>None\<close> when the line does not match.\<close>

definition copy_start_match :: "string \<Rightarrow> (string \<times> string) option" where
  "copy_start_match line =
     (case literal ''COPY'' line of None \<Rightarrow> None | Some r1 \<Rightarrow>
      (case spaces1 r1 of None \<Rightarrow> None | Some r2 \<Rightarrow>
      (case literal ''public.'' r2 of None \<Rightarrow> None | Some r3 \<Rightarrow>
      (let table = takeWhile is_table_char r3
       in if table = [] then None else
      (case spaces1 (dropWhile is_table_char r3) of None \<Rightarrow> None | Some r4 \<Rightarrow>
      (case literal ''('' r4 of None \<Rightarrow> None | Some r5 \<Rightarrow>
      (case match_cols (length r5) r5 of None \<Rightarrow> None | Some cols \<Rightarrow>
         Some (table, cols))))))))"

subsection \<open>\<^verbatim>\<open>iter_copy_rows\<close>\<close>

type_synonym row = "string list"

text \<open>
  A generator run to exhaustion: the rows it yielded, in order, how it ended
  (\<open>None\<close>: it returned; \<open>Some e\<close>: it raised \<open>e\<close>), and how many lines of the
  file it had read by then.
\<close>

record scan =
  yielded :: "row list"
  ended :: "error option"
  consumed :: nat

definition read_line :: "scan \<Rightarrow> scan" where
  "read_line r = r\<lparr>consumed := Suc (consumed r)\<rparr>"

definition yield :: "row \<Rightarrow> scan \<Rightarrow> scan" where
  "yield parts r = r\<lparr>yielded := parts # yielded r\<rparr>"

definition stop :: "error option \<Rightarrow> scan" where
  "stop e = \<lparr>yielded = [], ended = e, consumed = 0\<rparr>"

text \<open>
  The loop over the lines, from the state \<open>(in_copy, cols_count)\<close>; the empty list
  is the end of the file, where the two \<^verbatim>\<open>die\<close> calls after the loop are reached.
\<close>

fun copy_rows_loop :: "string \<Rightarrow> bool \<Rightarrow> nat option \<Rightarrow> string list \<Rightarrow> scan" where
  "copy_rows_loop expected_table in_copy cols_count [] =
     stop (Some (if \<not> in_copy then CopyBlockNotFound else CopyBlockNotTerminated))"
| "copy_rows_loop expected_table in_copy cols_count (raw # rest) =
     (let line = rstrip_nl raw in
      if \<not> in_copy then
        (case copy_start_match line of
           None \<Rightarrow> read_line (copy_rows_loop expected_table in_copy cols_count rest)
         | Some (table, cols) \<Rightarrow>
             if table \<noteq> expected_table
             then read_line (copy_rows_loop expected_table in_copy cols_count rest)
             else read_line (copy_rows_loop expected_table True
                    (Some (length (map strip (split_on (CHR '','') cols)))) rest))
      else if line = TERMINATOR then read_line (stop None)
      else
        (let parts = split_on TAB line in
         case cols_count of
           None \<Rightarrow> read_line (yield parts (copy_rows_loop expected_table in_copy cols_count rest))
         | Some n \<Rightarrow>
             if length parts \<noteq> n
             then read_line (stop (Some (UnexpectedColumnCount (length parts) n)))
             else read_line (yield parts (copy_rows_loop expected_table in_copy cols_count rest))))"

definition iter_copy_rows :: "string list \<Rightarrow> string \<Rightarrow> scan" where
  "iter_copy_rows file expected_table = copy_rows_loop expected_table False None file"



subsection \<open>Resolving the business and its locations\<close>


record location =
  loc_id :: int
  loc_name :: string
  loc_business_id :: int






subsection \<open>Output files\<close>

text \<open>
  A cell of a CSV row is the value handed to the writer (the location id is an
  integer, every other cell a string); the quoting that \<^verbatim>\<open>csv.DictWriter\<close> adds
  when it prints a cell is not modelled. The name of an output file is kept as the
  two parts it is built from, the location id and the slug of the location name.
\<close>

datatype cell = IntCell int | StrCell string

type_synonym csv_row = "cell list"

record out_file =
  file_loc_id :: int
  file_slug :: string
  content :: "csv_row list"
  close_calls :: nat

definition fieldnames :: "string list" where
  "fieldnames = [''location_id'', ''location_name'', ''review_uid'', ''review_date'',
                 ''rating'', ''source'', ''author'', ''title'', ''text'', ''url'']"

text \<open>
  The files the run has opened, in the order it opened them: a handle is the position
  of a file object in that list. The dictionary \<open>writers\<close> is an association list in
  insertion order; storing under a key that is present replaces its value in place,
  as \<open>AList.update\<close> does.
\<close>

type_synonym handle = nat

text \<open>The file object of a location, once opened and with the header row written.\<close>

definition open_file :: "location \<Rightarrow> out_file" where
  "open_file loc =
     \<lparr>file_loc_id = loc_id loc, file_slug = slugify (loc_name loc),
      content = [map StrCell fieldnames], close_calls = 0\<rparr>"

fun open_writers_loop ::
  "location list \<Rightarrow> out_file list \<times> (int \<times> handle) list \<Rightarrow> out_file list \<times> (int \<times> handle) list"
where
  "open_writers_loop [] (fs, writers) = (fs, writers)"
| "open_writers_loop (loc # locs) (fs, writers) =
     open_writers_loop locs
       (fs @ [open_file loc], AList.update (loc_id loc) (length fs) writers)"

definition open_writers :: "location list \<Rightarrow> out_file list \<times> (int \<times> handle) list" where
  "open_writers locations = open_writers_loop locations ([], [])"

definition writerow :: "handle \<Rightarrow> csv_row \<Rightarrow> out_file list \<Rightarrow> out_file list" where
  "writerow h r fs =
     (if h < length fs then fs[h := (fs ! h)\<lparr>content := content (fs ! h) @ [r]\<rparr>] else fs)"

definition close_file :: "handle \<Rightarrow> out_file list \<Rightarrow> out_file list" where
  "close_file h fs =
     (if h < length fs then fs[h := (fs ! h)\<lparr>close_calls := Suc (close_calls (fs ! h))\<rparr>]
      else fs)"

subsection \<open>\<^verbatim>\<open>export_reviews\<close>\<close>

record export_args =
  business_id :: int
  locations :: "location list"
  normalize_whitespace :: bool
  keep_newlines :: bool
  progress_every :: int

text \<open>What the run has printed: the progress notices on stderr, the summary on stdout.\<close>

datatype notice =
    Progress int nat
  | Done nat
  | LocationCount int string nat

record export_state =
  files :: "out_file list"
  counts :: "int \<rightharpoonup> nat"
  printed :: "notice list"

text \<open>What a Python call hands back to its caller.\<close>

datatype pyval = PyNone | PyCounts "(int \<times> nat) list"

definition loc_by_id_of :: "location list \<Rightarrow> (int \<rightharpoonup> location)" where
  "loc_by_id_of locs = map_of (rev (map (\<lambda>l. (loc_id l, l)) locs))"

definition field :: "export_args \<Rightarrow> row \<Rightarrow> nat \<Rightarrow> string" where
  "field args parts i =
     (let v = parts ! i in
      if v = NULL_FIELD then []
      else (let v' = decode_copy_text v
            in if normalize_whitespace args then normalize_text v' (keep_newlines args)
               else v'))"

definition review_csv_row :: "export_args \<Rightarrow> int \<Rightarrow> location \<Rightarrow> row \<Rightarrow> csv_row" where
  "review_csv_row args location_id loc parts =
     [IntCell location_id, StrCell (loc_name loc), StrCell (field args parts 1),
      StrCell (field args parts 8), StrCell (field args parts 6),
      StrCell (field args parts 2), StrCell (field args parts 7),
      StrCell (field args parts 3), StrCell (field args parts 4),
      StrCell (field args parts 5)]"

text \<open>
  The body of the loop for one line inside the block that is not the terminator:
  \<open>None\<close> when the loop goes on, \<open>Some e\<close> when the body raises \<open>e\<close>. The indices
  1 to 12 are read only after the length of \<open>parts\<close> is known to be 17.
\<close>

definition review_line ::
  "export_args \<Rightarrow> (int \<times> handle) list \<Rightarrow> nat \<Rightarrow> row \<Rightarrow> export_state \<Rightarrow> error option \<times> export_state"
where
  "review_line args writers line_no parts st =
     (if length parts \<noteq> 17 then (Some (ReviewsColumnCount line_no (length parts)), st)
      else if parts ! 11 = NULL_FIELD then (None, st)
      else (case py_int (parts ! 11) of
        None \<Rightarrow> (Some (ValueError (parts ! 11)), st)
      | Some b \<Rightarrow>
          if b \<noteq> business_id args then (None, st)
          else if parts ! 12 = NULL_FIELD then (None, st)
          else (case py_int (parts ! 12) of
            None \<Rightarrow> (Some (ValueError (parts ! 12)), st)
          | Some location_id \<Rightarrow>
              if location_id \<notin> loc_id ` set (locations args) then (None, st)
              else (case loc_by_id_of (locations args) location_id of
                None \<Rightarrow> (Some (KeyError location_id), st)
              | Some loc \<Rightarrow>
                  (case map_of writers location_id of
                    None \<Rightarrow> (Some (KeyError location_id), st)
                  | Some h \<Rightarrow>
                      (let st1 = st\<lparr>files := writerow h
                                   (review_csv_row args location_id loc parts) (files st)\<rparr>
                       in case counts st1 location_id of
                         None \<Rightarrow> (Some (KeyError location_id), st1)
                       | Some n \<Rightarrow>
                           (let st2 = st1\<lparr>counts := (counts st1)(location_id \<mapsto> Suc n)\<rparr>
                            in if progress_every args > 0
                                  \<and> int (Suc n) mod progress_every args = 0
                               then (None, st2\<lparr>printed := printed st2
                                                  @ [Progress location_id (Suc n)]\<rparr>)
                               else (None, st2))))))))"

text \<open>The loop over the lines of the reviews file, from the state \<open>(in_copy, line_no)\<close>.\<close>

fun reviews_loop ::
  "export_args \<Rightarrow> (int \<times> handle) list \<Rightarrow> bool \<Rightarrow> nat \<Rightarrow> string list \<Rightarrow> export_state
     \<Rightarrow> error option \<times> export_state"
where
  "reviews_loop args writers in_copy line_no [] st = (None, st)"
| "reviews_loop args writers in_copy line_no (raw # rest) st =
     (let line = rstrip_nl raw in
      if \<not> in_copy then
        (if startswith line ''COPY public.reviews_review ''
         then reviews_loop args writers True (Suc line_no) rest st
         else reviews_loop args writers in_copy (Suc line_no) rest st)
      else if line = TERMINATOR then (None, st)
      else (case review_line args writers (Suc line_no) (split_on TAB line) st of
              (Some e, st') \<Rightarrow> (Some e, st')
            | (None, st') \<Rightarrow> reviews_loop args writers in_copy (Suc line_no) rest st'))"

text \<open>The \<^verbatim>\<open>finally\<close> clause: one \<^verbatim>\<open>close\<close> for every value of \<open>writers\<close>.\<close>

definition close_writers :: "(int \<times> handle) list \<Rightarrow> out_file list \<Rightarrow> out_file list" where
  "close_writers writers fs = fold close_file (map snd writers) fs"

definition count_of :: "(int \<rightharpoonup> nat) \<Rightarrow> int \<Rightarrow> nat" where
  "count_of cs l = (case cs l of None \<Rightarrow> 0 | Some n \<Rightarrow> n)"

text \<open>\<^verbatim>\<open>sum(counts.values())\<close>: one summand for every key.\<close>

definition total_of :: "location list \<Rightarrow> (int \<rightharpoonup> nat) \<Rightarrow> nat" where
  "total_of locs cs = sum_list (map (count_of cs) (remdups (map loc_id locs)))"

text \<open>
  The state when the \<^verbatim>\<open>try\<close> block is entered, and the block itself: how it ended
  (\<open>None\<close>: it ran to its end) and the state it left.
\<close>

definition start_state :: "export_args \<Rightarrow> export_state" where
  "start_state args =
     \<lparr>files = fst (open_writers (locations args)),
      counts = (\<lambda>l. if l \<in> loc_id ` set (locations args) then Some 0 else None),
      printed = []\<rparr>"

definition try_block :: "export_args \<Rightarrow> string list \<Rightarrow> error option \<times> export_state" where
  "try_block args reviews_file =
     reviews_loop args (snd (open_writers (locations args))) False 0 reviews_file
       (start_state args)"

definition export_reviews :: "export_args \<Rightarrow> string list \<Rightarrow> (error + pyval) \<times> export_state" where
  "export_reviews args reviews_file =
     (let writers = snd (open_writers (locations args));
          (err, st1) = try_block args reviews_file;
          st2 = st1\<lparr>files := close_writers writers (files st1)\<rparr>
      in case err of
           Some e \<Rightarrow> (Inl e, st2)
         | None \<Rightarrow>
             (Inr PyNone,
              st2\<lparr>printed := printed st2
                     @ Done (total_of (locations args) (counts st2))
                     # map (\<lambda>loc. LocationCount (loc_id loc) (loc_name loc)
                                    (count_of (counts st2) (loc_id loc)))
                           (locations args)\<rparr>))"

subsection \<open>\<^verbatim>\<open>main\<close>\<close>




subsection \<open>Vocabulary of the statements about the reader\<close>

text \<open>
  The tests that \<open>copy_rows_loop\<close> applies to a raw line, named: the line is a header
  for the expected table; the number of columns its header declares; the line is the
  terminator; the fields of a data line.
\<close>

definition is_header :: "string \<Rightarrow> string \<Rightarrow> bool" where
  "is_header expected_table raw =
     (case copy_start_match (rstrip_nl raw) of
        None \<Rightarrow> False
      | Some (table, cols) \<Rightarrow> table = expected_table)"

definition declared_columns :: "string \<Rightarrow> nat" where
  "declared_columns raw =
     (case copy_start_match (rstrip_nl raw) of
        None \<Rightarrow> 0
      | Some (table, cols) \<Rightarrow> length (split_on (CHR '','') cols))"

definition is_terminator :: "string \<Rightarrow> bool" where
  "is_terminator raw \<longleftrightarrow> rstrip_nl raw = TERMINATOR"

definition fields :: "string \<Rightarrow> row" where
  "fields raw = split_on TAB (rstrip_nl raw)"

text \<open>A scan that went on after \<open>k\<close> more lines, which gave the rows \<open>rs\<close>.\<close>

definition advance :: "nat \<Rightarrow> row list \<Rightarrow> scan \<Rightarrow> scan" where
  "advance k rs r = r\<lparr>yielded := rs @ yielded r, consumed := k + consumed r\<rparr>"

subsection \<open>Example files\<close>

definition tsv :: "string list \<Rightarrow> string" where
  "tsv fs = (case fs of [] \<Rightarrow> [] | f # gs \<Rightarrow> f @ concat (map (\<lambda>g. TAB # g) gs)) @ [NL]"

definition ex_other_block :: "string list" where
  "ex_other_block =
     [''COPY public.auth_user (id, name) FROM stdin;'' @ [NL],
      tsv [''1'', ''root''],
      TERMINATOR @ [NL]]"

definition ex_business_header :: string where
  "ex_business_header =
     ''COPY public.business_business (id, uid, business_name) FROM stdin;'' @ [NL]"

definition ex_business_rows :: "string list" where
  "ex_business_rows =
     [tsv [''7'', ''u1'', ''Acme Foods''],
      tsv [''8'', ''u2'', ''acme foods srl'']]"

definition ex_business_sql :: "string list" where
  "ex_business_sql =
     ex_other_block @ ex_business_header # ex_business_rows
       @ (TERMINATOR @ [NL]) # [tsv [''9'', ''u3'', ''after the block'']]"

definition ex_short_row :: string where
  "ex_short_row = tsv [''8'', ''u2'']"


subsection \<open>Vocabulary of the statements about the resolver\<close>










subsection \<open>Vocabulary of the statements about the export\<close>

text \<open>
  One more \<^verbatim>\<open>close\<close> call on a file; the two invariants of the scan (the files
  are those of the locations, none is closed, every known location id has a counter;
  the counter of a location is the number of data rows in its file); the example
  data.
\<close>

definition bump_close :: "out_file \<Rightarrow> out_file" where
  "bump_close f = f\<lparr>close_calls := Suc (close_calls f)\<rparr>"

definition shaped :: "export_args \<Rightarrow> export_state \<Rightarrow> bool" where
  "shaped args st \<longleftrightarrow>
     map file_loc_id (files st) = map loc_id (locations args)
     \<and> (\<forall>f \<in> set (files st). close_calls f = 0)
     \<and> (\<forall>l \<in> loc_id ` set (locations args). counts st l \<noteq> None)"

definition counted :: "export_args \<Rightarrow> export_state \<Rightarrow> bool" where
  "counted args st \<longleftrightarrow>
     (\<forall>i < length (locations args).
        length (content (files st ! i)) = Suc (count_of (counts st) (loc_id (locations args ! i))))"

definition ex_locations :: "location list" where
  "ex_locations =
     [\<lparr>loc_id = 3, loc_name = ''Downtown'', loc_business_id = 7\<rparr>,
      \<lparr>loc_id = 9, loc_name = ''Uptown'', loc_business_id = 7\<rparr>]"

definition ex_args :: export_args where
  "ex_args =
     \<lparr>business_id = 7, locations = ex_locations, normalize_whitespace = True,
      keep_newlines = False, progress_every = 0\<rparr>"

definition ex_review :: "string \<Rightarrow> string \<Rightarrow> string \<Rightarrow> row" where
  "ex_review uid bid lid =
     [''1'', uid, ''google'', ''Title'', ''Good  food'', ''http://x'', ''5'', ''Ann'',
      ''2020-01-02'', ''ok'', ''2020-01-03'', bid, lid, NULL_FIELD, ''h'', NULL_FIELD, ''{}'']"

definition ex_reviews_header :: string where
  "ex_reviews_header =
     ''COPY public.reviews_review (id, uid, source, title, text, url, rating, author, ''
       @ ''review_date, status, created_at, business_id, location_id, batched_at, ''
       @ ''review_hash, ai_result, raw_data) FROM stdin;'' @ [NL]"

definition ex_reviews_sql :: "string list" where
  "ex_reviews_sql =
     [ex_reviews_header,
      tsv (ex_review ''r1'' ''7'' ''3''),
      tsv (ex_review ''r2'' ''7'' ''9''),
      tsv (ex_review ''r3'' ''8'' ''3''),
      tsv (ex_review ''r4'' ''7'' NULL_FIELD),
      TERMINATOR @ [NL]]"

definition ex_reviews_broken :: "string list" where
  "ex_reviews_broken =
     [ex_reviews_header,
      tsv (ex_review ''r1'' ''7'' ''3''),
      tsv [''2'', ''r2'', ''google''],
      tsv (ex_review ''r3'' ''7'' ''9''),
      TERMINATOR @ [NL]]"

definition ex_header_row :: csv_row where
  "ex_header_row = map StrCell fieldnames"

section \<open>Properties\<close>

subsection \<open>Decoding is not the inverse of COPY escaping\<close>

text \<open>
  C10. \<open>decode_copy_text\<close> applies its four replacements one after the other, the
  one for the doubled backslash first. The raw field backslash, backslash, \<open>t\<close> is
  what COPY escaping writes for the two characters backslash, \<open>t\<close>; decoding it gives
  the single TAB character, so decoding after escaping is not the identity.
\<close>

theorem decode_copy_text_not_inverse:
  "decode_copy_text s =
     replace_str [BS, CHR ''r''] [CR]
       (replace_str [BS, CHR ''n''] [NL]
         (replace_str [BS, CHR ''t''] [TAB]
           (replace_str [BS, BS] [BS] s)))
   \<and> copy_escape [BS, CHR ''t''] = [BS, BS, CHR ''t'']
   \<and> decode_copy_text [BS, BS, CHR ''t''] = [TAB]
   \<and> decode_copy_text (copy_escape [BS, CHR ''t'']) \<noteq> [BS, CHR ''t'']"
proof -
  have seq: "decode_copy_text s =
     replace_str [BS, CHR ''r''] [CR]
       (replace_str [BS, CHR ''n''] [NL]
         (replace_str [BS, CHR ''t''] [TAB]
           (replace_str [BS, BS] [BS] s)))"
    by (simp add: decode_copy_text_def Let_def)
  have esc: "copy_escape [BS, CHR ''t''] = [BS, BS, CHR ''t'']"
    by (simp add: copy_escape_def copy_escape_char_def BS_def TAB_def NL_def CR_def)
  have dec: "decode_copy_text [BS, BS, CHR ''t''] = [TAB]"
    by (simp add: decode_copy_text_def Let_def BS_def TAB_def NL_def CR_def)
  have "[TAB] \<noteq> [BS, CHR ''t'']"
    by simp
  with seq esc dec show ?thesis
    by simp
qed

subsection \<open>Normalisation of the example string\<close>

text \<open>
  C8, as the specification states it, fails: between \<open>hello\<close> and the newline the
  result keeps one space, because the run of three spaces is collapsed to one space
  and only the two ends of the whole string are trimmed.
\<close>

theorem normalize_text_example_counterexample:
  "normalize_text (''hello   '' @ [NL, NL, NL] @ ''world  '') False
     \<noteq> ''hello'' @ [BS, CHR ''n''] @ ''world''
   \<and> normalize_text (''hello   '' @ [NL, NL, NL] @ ''world  '') True
     \<noteq> ''hello'' @ [NL] @ ''world''"
  by (simp add: normalize_text_def Let_def strip_def strip_chars_def rstrip_chars_def
        is_space_def BS_def TAB_def NL_def CR_def)

text \<open>
  C8, amended. With normalisation enabled, the string \<open>hello\<close>, three spaces, three
  newlines, \<open>world\<close>, two spaces becomes \<open>hello\<close>, one space, the two characters
  backslash and \<open>n\<close>, \<open>world\<close> when newlines are not kept, and \<open>hello\<close>, one space,
  one newline, \<open>world\<close> when they are kept; the ends are trimmed in both cases.
\<close>

theorem normalize_text_example:
  "normalize_text (''hello   '' @ [NL, NL, NL] @ ''world  '') False
     = ''hello '' @ [BS, CHR ''n''] @ ''world''
   \<and> normalize_text (''hello   '' @ [NL, NL, NL] @ ''world  '') True
     = ''hello '' @ [NL] @ ''world''"
  by (simp add: normalize_text_def Let_def strip_def strip_chars_def rstrip_chars_def
        is_space_def BS_def TAB_def NL_def CR_def)

subsection \<open>The bulk-block reader\<close>

lemma advance_0 [simp]: "advance 0 [] r = r"
  by (simp add: advance_def)

lemma read_line_advance: "read_line (advance k rs r) = advance (Suc k) rs r"
  by (simp add: read_line_def advance_def)

lemma yield_advance: "yield p (advance k rs r) = advance k (p # rs) r"
  by (simp add: yield_def advance_def)

text \<open>One iteration of the loop, for each kind of line.\<close>

lemma loop_skip:
  "\<not> is_header tbl l \<Longrightarrow>
   copy_rows_loop tbl False cc (l # rest) = read_line (copy_rows_loop tbl False cc rest)"
  by (auto simp: is_header_def Let_def split: option.splits)

lemma loop_at_header:
  "is_header tbl hdr \<Longrightarrow>
   copy_rows_loop tbl False cc (hdr # rest)
     = read_line (copy_rows_loop tbl True (Some (declared_columns hdr)) rest)"
  by (auto simp: is_header_def declared_columns_def Let_def split: option.splits)

lemma loop_row:
  "\<not> is_terminator l \<Longrightarrow> length (fields l) = n \<Longrightarrow>
   copy_rows_loop tbl True (Some n) (l # rest)
     = read_line (yield (fields l) (copy_rows_loop tbl True (Some n) rest))"
  by (simp add: is_terminator_def fields_def Let_def)

lemma loop_at_terminator:
  "is_terminator l \<Longrightarrow>
   copy_rows_loop tbl True cc (l # rest) = \<lparr>yielded = [], ended = None, consumed = 1\<rparr>"
  by (simp add: is_terminator_def Let_def read_line_def stop_def)

lemma loop_at_bad_row:
  "\<not> is_terminator l \<Longrightarrow> length (fields l) \<noteq> n \<Longrightarrow>
   copy_rows_loop tbl True (Some n) (l # rest)
     = \<lparr>yielded = [], ended = Some (UnexpectedColumnCount (length (fields l)) n),
        consumed = 1\<rparr>"
  by (simp add: is_terminator_def fields_def Let_def read_line_def stop_def)

lemma loop_at_eof:
  "copy_rows_loop tbl in_copy cc []
     = \<lparr>yielded = [],
        ended = Some (if in_copy then CopyBlockNotTerminated else CopyBlockNotFound),
        consumed = 0\<rparr>"
  by (simp add: stop_def)

declare copy_rows_loop.simps [simp del]

text \<open>Several iterations: the lines before the header, the rows of the block.\<close>

lemma loop_before_header:
  "\<forall>l \<in> set pre. \<not> is_header tbl l \<Longrightarrow>
   copy_rows_loop tbl False cc (pre @ rest)
     = advance (length pre) [] (copy_rows_loop tbl False cc rest)"
  by (induction pre) (simp_all add: loop_skip read_line_advance)

lemma loop_in_block:
  "\<forall>l \<in> set body. \<not> is_terminator l \<and> length (fields l) = n \<Longrightarrow>
   copy_rows_loop tbl True (Some n) (body @ rest)
     = advance (length body) (map fields body) (copy_rows_loop tbl True (Some n) rest)"
  by (induction body) (simp_all add: loop_row read_line_advance yield_advance)

lemma loop_unterminated:
  "\<forall>l \<in> set body. \<not> is_terminator l \<Longrightarrow>
   ended (copy_rows_loop tbl True (Some n) body) \<noteq> None"
proof (induction body)
  case Nil
  show ?case by (simp add: loop_at_eof)
next
  case (Cons l body)
  then have l: "\<not> is_terminator l"
    and IH: "ended (copy_rows_loop tbl True (Some n) body) \<noteq> None"
    by simp_all
  show ?case
  proof (cases "length (fields l) = n")
    case True
    with l IH show ?thesis
      by (simp add: loop_row read_line_def yield_def)
  next
    case False
    with l show ?thesis
      by (simp add: loop_at_bad_row)
  qed
qed

text \<open>
  C1, as stated for every input file, fails: when a line between the header and the
  terminator has not the number of fields the header declares, the reader yields
  the rows before that line only and then fails. Here the header declares three
  columns, the second data line has two fields, and the terminator follows.
\<close>

theorem iter_copy_rows_block_counterexample:
  "is_header ''business_business'' ex_business_header
   \<and> \<not> is_terminator (tsv [''7'', ''u1'', ''Acme Foods''])
   \<and> \<not> is_terminator ex_short_row
   \<and> is_terminator (TERMINATOR @ [NL])
   \<and> map fields [tsv [''7'', ''u1'', ''Acme Foods''], ex_short_row]
       = [[''7'', ''u1'', ''Acme Foods''], [''8'', ''u2'']]
   \<and> iter_copy_rows
        [ex_business_header, tsv [''7'', ''u1'', ''Acme Foods''], ex_short_row,
         TERMINATOR @ [NL]] ''business_business''
       = \<lparr>yielded = [[''7'', ''u1'', ''Acme Foods'']],
          ended = Some (UnexpectedColumnCount 2 3), consumed = 3\<rparr>
   \<and> yielded (iter_copy_rows
        [ex_business_header, tsv [''7'', ''u1'', ''Acme Foods''], ex_short_row,
         TERMINATOR @ [NL]] ''business_business'')
       \<noteq> map fields [tsv [''7'', ''u1'', ''Acme Foods''], ex_short_row]"
  by code_simp

text \<open>
  C1, amended. For every input file and expected table name such that every line
  between the first header for exactly that table and the first later terminator line
  has as many tab-separated fields as the header declares columns, the reader yields
  exactly the tab-split rows between the two, in file order, and returns. The lines
  before the header, among them the data lines of the blocks of other tables, yield
  nothing, and the reader has read no line after the terminator: the result does not
  depend on the rest of the file.
\<close>

theorem iter_copy_rows_block:
  assumes "lines = pre @ hdr # body @ term # rest"
    and "\<forall>l \<in> set pre. \<not> is_header tbl l"
    and "is_header tbl hdr"
    and "\<forall>l \<in> set body. \<not> is_terminator l \<and> length (fields l) = declared_columns hdr"
    and "is_terminator term"
  shows "iter_copy_rows lines tbl
           = \<lparr>yielded = map fields body, ended = None,
              consumed = length pre + length body + 2\<rparr>"
  using assms
  by (simp add: iter_copy_rows_def loop_before_header loop_at_header loop_in_block
        loop_at_terminator advance_def read_line_def)

theorem iter_copy_rows_block_witness:
  "list_all (\<lambda>l. \<not> is_header ''business_business'' l) ex_other_block
   \<and> is_header ''business_business'' ex_business_header
   \<and> list_all (\<lambda>l. \<not> is_terminator l
          \<and> length (fields l) = declared_columns ex_business_header) ex_business_rows
   \<and> is_terminator (TERMINATOR @ [NL])
   \<and> iter_copy_rows ex_business_sql ''business_business''
       = \<lparr>yielded = [[''7'', ''u1'', ''Acme Foods''], [''8'', ''u2'', ''acme foods srl'']],
          ended = None, consumed = 7\<rparr>"
proof -
  have pre: "\<forall>l \<in> set ex_other_block. \<not> is_header ''business_business'' l"
    by code_simp
  have hdr: "is_header ''business_business'' ex_business_header"
    by code_simp
  have body: "\<forall>l \<in> set ex_business_rows.
        \<not> is_terminator l \<and> length (fields l) = declared_columns ex_business_header"
    by code_simp
  have trm: "is_terminator (TERMINATOR @ [NL])"
    by code_simp
  have rows: "map fields ex_business_rows
      = [[''7'', ''u1'', ''Acme Foods''], [''8'', ''u2'', ''acme foods srl'']]"
    by code_simp
  have len: "length ex_other_block + length ex_business_rows + 2 = 7"
    by code_simp
  have "iter_copy_rows ex_business_sql ''business_business''
       = \<lparr>yielded = map fields ex_business_rows, ended = None,
          consumed = length ex_other_block + length ex_business_rows + 2\<rparr>"
    using pre hdr body trm
    by (rule iter_copy_rows_block [OF ex_business_sql_def])
  with pre hdr body trm rows len show ?thesis
    by (simp add: list_all_iff)
qed

text \<open>
  C6. Run to exhaustion, the reader fails with "block not found" when the end of the
  file is reached and no line was a header for the requested table; it fails, and
  with "did not terminate" when every row had the declared number of fields, when
  a header matched and no terminator line follows it; and at the first data row
  whose number of tab-separated fields is not the number of columns in the header's
  comma-separated list it fails with the column-count error, yielding neither that
  row nor any later one.
\<close>

theorem iter_copy_rows_errors:
  "((\<forall>l \<in> set lines. \<not> is_header tbl l) \<longrightarrow>
      iter_copy_rows lines tbl
        = \<lparr>yielded = [], ended = Some CopyBlockNotFound, consumed = length lines\<rparr>)
   \<and> ((\<forall>l \<in> set pre. \<not> is_header tbl l) \<and> is_header tbl hdr
        \<and> (\<forall>l \<in> set body. \<not> is_terminator l) \<longrightarrow>
      ended (iter_copy_rows (pre @ hdr # body) tbl) \<noteq> None
      \<and> ((\<forall>l \<in> set body. length (fields l) = declared_columns hdr) \<longrightarrow>
          iter_copy_rows (pre @ hdr # body) tbl
            = \<lparr>yielded = map fields body, ended = Some CopyBlockNotTerminated,
               consumed = length pre + length body + 1\<rparr>))
   \<and> ((\<forall>l \<in> set pre. \<not> is_header tbl l) \<and> is_header tbl hdr
        \<and> (\<forall>l \<in> set good. \<not> is_terminator l \<and> length (fields l) = declared_columns hdr)
        \<and> \<not> is_terminator bad \<and> length (fields bad) \<noteq> declared_columns hdr \<longrightarrow>
      iter_copy_rows (pre @ hdr # good @ bad # rest) tbl
        = \<lparr>yielded = map fields good,
           ended = Some (UnexpectedColumnCount (length (fields bad)) (declared_columns hdr)),
           consumed = length pre + length good + 2\<rparr>)"
proof -
  have not_found: "iter_copy_rows lines tbl
        = \<lparr>yielded = [], ended = Some CopyBlockNotFound, consumed = length lines\<rparr>"
    if "\<forall>l \<in> set lines. \<not> is_header tbl l"
    using that loop_before_header [where pre = lines and tbl = tbl and cc = None and rest = "[]"]
    by (simp add: iter_copy_rows_def loop_at_eof advance_def)
  have fails: "ended (iter_copy_rows (pre @ hdr # body) tbl) \<noteq> None"
    if "\<forall>l \<in> set pre. \<not> is_header tbl l" "is_header tbl hdr"
      "\<forall>l \<in> set body. \<not> is_terminator l"
    using that loop_unterminated [of body tbl "declared_columns hdr"]
    by (simp add: iter_copy_rows_def loop_before_header loop_at_header
          advance_def read_line_def)
  have unterminated: "iter_copy_rows (pre @ hdr # body) tbl
        = \<lparr>yielded = map fields body, ended = Some CopyBlockNotTerminated,
           consumed = length pre + length body + 1\<rparr>"
    if "\<forall>l \<in> set pre. \<not> is_header tbl l" "is_header tbl hdr"
      "\<forall>l \<in> set body. \<not> is_terminator l"
      "\<forall>l \<in> set body. length (fields l) = declared_columns hdr"
    using that
      loop_in_block [where body = body and n = "declared_columns hdr" and tbl = tbl
        and rest = "[]"]
    by (simp add: iter_copy_rows_def loop_before_header loop_at_header
          loop_at_eof advance_def read_line_def)
  have bad_row: "iter_copy_rows (pre @ hdr # good @ bad # rest) tbl
        = \<lparr>yielded = map fields good,
           ended = Some (UnexpectedColumnCount (length (fields bad)) (declared_columns hdr)),
           consumed = length pre + length good + 2\<rparr>"
    if "\<forall>l \<in> set pre. \<not> is_header tbl l" "is_header tbl hdr"
      "\<forall>l \<in> set good. \<not> is_terminator l \<and> length (fields l) = declared_columns hdr"
      "\<not> is_terminator bad" "length (fields bad) \<noteq> declared_columns hdr"
    using that
    by (simp add: iter_copy_rows_def loop_before_header loop_at_header loop_in_block
          loop_at_bad_row advance_def read_line_def)
  from not_found fails unterminated bad_row show ?thesis
    by blast
qed

theorem iter_copy_rows_errors_witness:
  "list_all (\<lambda>l. \<not> is_header ''business_business'' l) ex_other_block
   \<and> is_header ''business_business'' ex_business_header
   \<and> list_all (\<lambda>l. \<not> is_terminator l
          \<and> length (fields l) = declared_columns ex_business_header) ex_business_rows
   \<and> \<not> is_terminator ex_short_row
   \<and> length (fields ex_short_row) \<noteq> declared_columns ex_business_header
   \<and> iter_copy_rows ex_other_block ''business_business''
       = \<lparr>yielded = [], ended = Some CopyBlockNotFound, consumed = 3\<rparr>
   \<and> iter_copy_rows (ex_other_block @ ex_business_header # ex_business_rows)
        ''business_business''
       = \<lparr>yielded = [[''7'', ''u1'', ''Acme Foods''], [''8'', ''u2'', ''acme foods srl'']],
          ended = Some CopyBlockNotTerminated, consumed = 6\<rparr>
   \<and> iter_copy_rows
        (ex_other_block @ ex_business_header # ex_business_rows @ ex_short_row
           # [TERMINATOR @ [NL]]) ''business_business''
       = \<lparr>yielded = [[''7'', ''u1'', ''Acme Foods''], [''8'', ''u2'', ''acme foods srl'']],
          ended = Some (UnexpectedColumnCount 2 3), consumed = 7\<rparr>"
proof -
  have pre: "\<forall>l \<in> set ex_other_block. \<not> is_header ''business_business'' l"
    by code_simp
  have hdr: "is_header ''business_business'' ex_business_header"
    by code_simp
  have body: "\<forall>l \<in> set ex_business_rows.
        \<not> is_terminator l \<and> length (fields l) = declared_columns ex_business_header"
    by code_simp
  have bad: "\<not> is_terminator ex_short_row"
    "length (fields ex_short_row) \<noteq> declared_columns ex_business_header"
    by code_simp+
  have vals: "map fields ex_business_rows
      = [[''7'', ''u1'', ''Acme Foods''], [''8'', ''u2'', ''acme foods srl'']]"
    "length ex_other_block = 3" "length ex_business_rows = 2"
    "length (fields ex_short_row) = 2" "declared_columns ex_business_header = 3"
    by code_simp+
  note inst = iter_copy_rows_errors [where lines = "ex_other_block"
      and tbl = "''business_business''" and pre = ex_other_block
      and hdr = ex_business_header and body = ex_business_rows
      and good = ex_business_rows and bad = ex_short_row and rest = "[TERMINATOR @ [NL]]"]
  from inst pre have a: "iter_copy_rows ex_other_block ''business_business''
       = \<lparr>yielded = [], ended = Some CopyBlockNotFound, consumed = 3\<rparr>"
    by (simp add: vals)
  from inst pre hdr body
  have b: "iter_copy_rows (ex_other_block @ ex_business_header # ex_business_rows)
        ''business_business''
       = \<lparr>yielded = [[''7'', ''u1'', ''Acme Foods''], [''8'', ''u2'', ''acme foods srl'']],
          ended = Some CopyBlockNotTerminated, consumed = 6\<rparr>"
    by (simp add: vals)
  from inst pre hdr body bad
  have c: "iter_copy_rows
        (ex_other_block @ ex_business_header # ex_business_rows @ ex_short_row
           # [TERMINATOR @ [NL]]) ''business_business''
       = \<lparr>yielded = [[''7'', ''u1'', ''Acme Foods''], [''8'', ''u2'', ''acme foods srl'']],
          ended = Some (UnexpectedColumnCount 2 3), consumed = 7\<rparr>"
    by (simp add: vals)
  from pre hdr body bad a b c show ?thesis
    by (simp add: list_all_iff)
qed

subsection \<open>The identity resolver\<close>








subsection \<open>The export engine\<close>


lemma update_fresh:
  "k \<notin> fst ` set al \<Longrightarrow> AList.update k v al = al @ [(k, v)]"
  by (induction al) auto

lemma open_writers_loop_files:
  "fst (open_writers_loop locs (fs, ws)) = fs @ map open_file locs"
  by (induction locs arbitrary: fs ws) simp_all


lemma set_update_subset:
  "(a, b) \<in> set (AList.update k v al) \<Longrightarrow> (a, b) \<in> set al \<or> (a, b) = (k, v)"
  by (induction al) (auto split: if_splits)

lemma open_writers_loop_handles:
  "(l, h) \<in> set (snd (open_writers_loop locs (fs, ws))) \<Longrightarrow>
   (l, h) \<in> set ws
   \<or> (length fs \<le> h \<and> h < length fs + length locs \<and> loc_id (locs ! (h - length fs)) = l)"
proof (induction locs arbitrary: fs ws)
  case Nil
  then show ?case by simp
next
  case (Cons loc locs)
  from Cons.prems
  have "(l, h) \<in> set (snd (open_writers_loop locs
          (fs @ [open_file loc], AList.update (loc_id loc) (length fs) ws)))"
    by simp
  from Cons.IH [OF this]
  consider "(l, h) \<in> set (AList.update (loc_id loc) (length fs) ws)"
    | "Suc (length fs) \<le> h" "h < Suc (length fs) + length locs"
      "loc_id (locs ! (h - Suc (length fs))) = l"
    by auto
  then show ?case
  proof cases
    case 1
    then show ?thesis
      by (auto dest: set_update_subset)
  next
    case 2
    then have "(loc # locs) ! (h - length fs) = locs ! (h - Suc (length fs))"
      by (simp add: nth_Cons')
    with 2 show ?thesis
      by simp
  qed
qed

lemma open_writers_loop_distinct:
  "distinct (map loc_id locs) \<Longrightarrow> loc_id ` set locs \<inter> fst ` set ws = {} \<Longrightarrow>
   snd (open_writers_loop locs (fs, ws))
     = ws @ zip (map loc_id locs) [length fs ..< length fs + length locs]"
proof (induction locs arbitrary: fs ws)
  case Nil
  show ?case by simp
next
  case (Cons loc locs)
  from Cons.prems have fresh: "loc_id loc \<notin> fst ` set ws"
    by auto
  from Cons.prems have d: "distinct (map loc_id locs)"
    and disj: "loc_id ` set locs \<inter> fst ` set (ws @ [(loc_id loc, length fs)]) = {}"
    by auto
  have "[length fs ..< Suc (length fs + length locs)]
      = length fs # [Suc (length fs) ..< Suc (length fs + length locs)]"
    by (rule upt_conv_Cons) simp
  then show ?case
    using Cons.IH [OF d disj, of "fs @ [open_file loc]"]
    by (simp add: update_fresh [OF fresh])
qed

lemma open_writers_files: "fst (open_writers locs) = map open_file locs"
  by (simp add: open_writers_def open_writers_loop_files)


lemma open_writers_handles:
  "map_of (snd (open_writers locs)) l = Some h \<Longrightarrow> h < length locs \<and> loc_id (locs ! h) = l"
  using open_writers_loop_handles [of l h locs "[]" "[]"]
  by (auto simp: open_writers_def dest: map_of_SomeD)

lemma open_writers_distinct:
  "distinct (map loc_id locs) \<Longrightarrow>
   snd (open_writers locs) = zip (map loc_id locs) [0 ..< length locs]"
  using open_writers_loop_distinct [of locs "[]" "[]"]
  by (simp add: open_writers_def)



lemma close_prefix:
  "k \<le> length fs \<Longrightarrow>
   fold close_file [0 ..< k] fs = map bump_close (take k fs) @ drop k fs"
proof (induction k)
  case 0
  show ?case by simp
next
  case (Suc k)
  then have k: "k < length fs" and IH: "fold close_file [0 ..< k] fs
      = map bump_close (take k fs) @ drop k fs"
    by simp_all
  have "close_file k (map bump_close (take k fs) @ drop k fs)
      = map bump_close (take k fs) @ bump_close (fs ! k) # drop (Suc k) fs"
    using k
    by (simp add: close_file_def bump_close_def nth_append list_update_append
          Cons_nth_drop_Suc [symmetric])
  with k IH show ?case
    by (simp add: take_Suc_conv_app_nth)
qed

lemma close_writers_distinct:
  "distinct (map loc_id locs) \<Longrightarrow> length fs = length locs \<Longrightarrow>
   close_writers (snd (open_writers locs)) fs = map bump_close fs"
  using close_prefix [of "length fs" fs]
  by (simp add: close_writers_def open_writers_distinct)

lemma writerow_shape:
  "length (writerow h r fs) = length fs"
  "map file_loc_id (writerow h r fs) = map file_loc_id fs"
  "map close_calls (writerow h r fs) = map close_calls fs"
  by (simp_all add: writerow_def map_update list_update_same_conv)


text \<open>What one line inside the block does to the state.\<close>

lemma review_line_cases:
  assumes "review_line args ws n parts st = (e, st')"
    and "\<forall>l \<in> loc_id ` set (locations args). counts st l \<noteq> None"
  shows "st' = st
       \<or> (\<exists>l h loc c. e = None \<and> length parts = 17
             \<and> py_int (parts ! 11) = Some (business_id args) \<and> py_int (parts ! 12) = Some l
             \<and> l \<in> loc_id ` set (locations args) \<and> map_of ws l = Some h
             \<and> loc_by_id_of (locations args) l = Some loc \<and> counts st l = Some c
             \<and> files st' = writerow h (review_csv_row args l loc parts) (files st)
             \<and> counts st' = (counts st)(l \<mapsto> Suc c))"
  using assms
  by (auto simp: review_line_def Let_def split: if_splits option.splits)

lemma reviews_loop_invariant:
  assumes step: "\<And>n parts st e st'.
      P st \<Longrightarrow> review_line args ws n parts st = (e, st') \<Longrightarrow> P st'"
    and "P st"
  shows "P (snd (reviews_loop args ws ic n lines st))"
  using assms(2)
proof (induction lines arbitrary: ic n st)
  case Nil
  then show ?case by simp
next
  case (Cons raw rest)
  show ?case
  proof (cases "ic \<and> rstrip_nl raw \<noteq> TERMINATOR")
    case False
    with Cons show ?thesis
      by (auto simp: Let_def)
  next
    case True
    obtain e st' where rl:
      "review_line args ws (Suc n) (split_on TAB (rstrip_nl raw)) st = (e, st')"
      by (cases "review_line args ws (Suc n) (split_on TAB (rstrip_nl raw)) st") 
    from step [OF Cons.prems rl] have P': "P st'" .
    show ?thesis
    proof (cases e)
      case None
      with True rl Cons.IH [OF P'] show ?thesis
        by (simp add: Let_def)
    next
      case (Some err)
      with True rl P' show ?thesis
        by (simp add: Let_def)
    qed
  qed
qed

lemma shaped_start: "shaped args (start_state args)"
  by (auto simp: shaped_def start_state_def open_writers_files open_file_def comp_def)

lemma counted_start: "counted args (start_state args)"
  by (simp add: counted_def start_state_def open_writers_files open_file_def count_of_def)

lemma set_writerow_close:
  "\<forall>f \<in> set fs. close_calls f = 0 \<Longrightarrow> \<forall>f \<in> set (writerow h r fs). close_calls f = 0"
  by (auto simp: writerow_def dest!: set_update_subset_insert [THEN subsetD])

lemma shaped_step:
  assumes "shaped args st" and "review_line args ws n parts st = (e, st')"
  shows "shaped args st'"
proof -
  from assms(1) have nn: "\<forall>l \<in> loc_id ` set (locations args). counts st l \<noteq> None"
    by (simp add: shaped_def)
  from review_line_cases [OF assms(2) nn] assms(1) show ?thesis
    by (auto simp: shaped_def writerow_shape set_writerow_close)
qed

lemma shaped_try_block: "shaped args (snd (try_block args f))"
  unfolding try_block_def
  by (rule reviews_loop_invariant [where P = "shaped args"]) (auto intro: shaped_step shaped_start)

lemma counted_step:
  assumes d: "distinct (map loc_id (locations args))"
    and inv: "shaped args st \<and> counted args st"
    and rl: "review_line args (snd (open_writers (locations args))) n parts st = (e, st')"
  shows "shaped args st' \<and> counted args st'"
proof -
  from inv have sh: "shaped args st" and co: "counted args st"
    by simp_all
  from sh have nn: "\<forall>l \<in> loc_id ` set (locations args). counts st l \<noteq> None"
    and len: "length (files st) = length (locations args)"
    by (auto simp: shaped_def dest: arg_cong [where f = length])
  have sh': "shaped args st'"
    using sh rl by (rule shaped_step)
  from review_line_cases [OF rl nn]
  consider "st' = st"
    | l h loc c where "map_of (snd (open_writers (locations args))) l = Some h"
        "counts st l = Some c"
        "files st' = writerow h (review_csv_row args l loc parts) (files st)"
        "counts st' = (counts st)(l \<mapsto> Suc c)"
    by blast
  then have "counted args st'"
  proof cases
    case 1
    with co show ?thesis by simp
  next
    case 2
    from open_writers_handles [OF 2(1)]
    have h: "h < length (locations args)" "loc_id (locations args ! h) = l"
      by simp_all
    show ?thesis
      unfolding counted_def
    proof (intro allI impI)
      fix i assume i: "i < length (locations args)"
      from co i have old: "length (content (files st ! i))
          = Suc (count_of (counts st) (loc_id (locations args ! i)))"
        by (simp add: counted_def)
      show "length (content (files st' ! i))
          = Suc (count_of (counts st') (loc_id (locations args ! i)))"
      proof (cases "i = h")
        case True
        with h i len old 2 show ?thesis
          by (simp add: writerow_def count_of_def)
      next
        case False
        with d i h have "loc_id (locations args ! i) \<noteq> l"
          by (metis distinct_conv_nth length_map nth_map)
        with False i len old 2 show ?thesis
          by (simp add: writerow_def count_of_def)
      qed
    qed
  qed
  with sh' show ?thesis ..
qed

lemma counted_try_block:
  "distinct (map loc_id (locations args)) \<Longrightarrow> counted args (snd (try_block args f))"
proof -
  assume d: "distinct (map loc_id (locations args))"
  have "shaped args (snd (try_block args f)) \<and> counted args (snd (try_block args f))"
    unfolding try_block_def
    by (rule reviews_loop_invariant [where P = "\<lambda>st. shaped args st \<and> counted args st"])
       (auto intro: counted_step [OF d, THEN conjunct2] shaped_step shaped_start counted_start)
  then show ?thesis ..
qed

lemma export_reviews_unfold:
  "export_reviews args f =
     (case fst (try_block args f) of
        Some e \<Rightarrow>
          (Inl e, (snd (try_block args f))
             \<lparr>files := close_writers (snd (open_writers (locations args)))
                         (files (snd (try_block args f)))\<rparr>)
      | None \<Rightarrow>
          (Inr PyNone, (snd (try_block args f))
             \<lparr>files := close_writers (snd (open_writers (locations args)))
                         (files (snd (try_block args f))),
              printed := printed (snd (try_block args f))
                @ Done (total_of (locations args) (counts (snd (try_block args f))))
                # map (\<lambda>loc. LocationCount (loc_id loc) (loc_name loc)
                               (count_of (counts (snd (try_block args f))) (loc_id loc)))
                      (locations args)\<rparr>))"
  by (cases "try_block args f") (simp add: export_reviews_def Let_def split: option.splits)

lemma export_reviews_files:
  "files (snd (export_reviews args f))
     = close_writers (snd (open_writers (locations args))) (files (snd (try_block args f)))"
  by (simp add: export_reviews_unfold split: option.splits)

lemma export_reviews_counts:
  "counts (snd (export_reviews args f)) = counts (snd (try_block args f))"
  by (simp add: export_reviews_unfold split: option.splits)

lemma try_block_files:
  "map file_loc_id (files (snd (try_block args f))) = map loc_id (locations args)"
  "length (files (snd (try_block args f))) = length (locations args)"
proof -
  have "shaped args (snd (try_block args f))"
    by (rule shaped_try_block)
  then show "map file_loc_id (files (snd (try_block args f))) = map loc_id (locations args)"
    by (simp add: shaped_def)
  then show "length (files (snd (try_block args f))) = length (locations args)"
    by (rule map_eq_imp_length_eq)
qed

lemma closed_files:
  assumes "distinct (map loc_id (locations args))"
  shows "files (snd (export_reviews args f))
           = map (\<lambda>x. x\<lparr>close_calls := 1\<rparr>) (files (snd (try_block args f)))"
proof -
  let ?fs = "files (snd (try_block args f))"
  have "shaped args (snd (try_block args f))"
    by (rule shaped_try_block)
  then have zero: "\<forall>x \<in> set ?fs. close_calls x = 0"
    by (simp add: shaped_def)
  have "files (snd (export_reviews args f)) = map bump_close ?fs"
    by (simp add: export_reviews_files close_writers_distinct [OF assms try_block_files(2)])
  also have "\<dots> = map (\<lambda>x. x\<lparr>close_calls := 1\<rparr>) ?fs"
    using zero by (simp add: bump_close_def)
  finally show ?thesis .
qed



text \<open>
  C5. With pairwise distinct location ids, on every exit of \<open>export_reviews\<close>, the
  \<^verbatim>\<open>try\<close> block having run to its end or having raised an error in the middle
  of the scan, the files are the files as the \<^verbatim>\<open>try\<close> block left them with one
  \<^verbatim>\<open>close\<close> call on each: there is one file for every location, each was closed
  exactly once, and each holds the rows written to it before the exit. The error, if
  any, is raised again after the files are closed.
\<close>

theorem export_reviews_closes_files:
  assumes "distinct (map loc_id (locations args))"
  shows "files (snd (export_reviews args f))
           = map (\<lambda>x. x\<lparr>close_calls := 1\<rparr>) (files (snd (try_block args f)))
       \<and> length (files (snd (export_reviews args f))) = length (locations args)
       \<and> (\<forall>h < length (locations args).
            close_calls (files (snd (export_reviews args f)) ! h) = 1
            \<and> file_loc_id (files (snd (export_reviews args f)) ! h) = loc_id (locations args ! h)
            \<and> content (files (snd (export_reviews args f)) ! h)
                = content (files (snd (try_block args f)) ! h))
       \<and> (case fst (try_block args f) of
            None \<Rightarrow> fst (export_reviews args f) = Inr PyNone
          | Some e \<Rightarrow> fst (export_reviews args f) = Inl e)"
proof -
  let ?fs = "files (snd (try_block args f))"
  note ids = try_block_files(1) [of args f] and len = try_block_files(2) [of args f]
  note eq = closed_files [OF assms, of f]
  have each: "close_calls (files (snd (export_reviews args f)) ! h) = 1
      \<and> file_loc_id (files (snd (export_reviews args f)) ! h) = loc_id (locations args ! h)
      \<and> content (files (snd (export_reviews args f)) ! h) = content (?fs ! h)"
    if "h < length (locations args)" for h
  proof -
    from ids that len have "file_loc_id (?fs ! h) = loc_id (locations args ! h)"
      by (metis nth_map)
    with that len show ?thesis
      by (simp add: eq)
  qed
  have res: "case fst (try_block args f) of
            None \<Rightarrow> fst (export_reviews args f) = Inr PyNone
          | Some e \<Rightarrow> fst (export_reviews args f) = Inl e"
    by (simp add: export_reviews_unfold split: option.splits)
  from eq len each res show ?thesis
    by simp
qed

theorem export_reviews_closes_files_witness:
  "distinct (map loc_id (locations ex_args))
   \<and> fst (try_block ex_args ex_reviews_broken) = Some (ReviewsColumnCount 3 3)
   \<and> fst (export_reviews ex_args ex_reviews_broken) = Inl (ReviewsColumnCount 3 3)
   \<and> files (snd (export_reviews ex_args ex_reviews_broken))
       = [\<lparr>file_loc_id = 3, file_slug = ''downtown'',
            content =
              [ex_header_row,
               [IntCell 3, StrCell ''Downtown'', StrCell ''r1'', StrCell ''2020-01-02'',
                StrCell ''5'', StrCell ''google'', StrCell ''Ann'', StrCell ''Title'',
                StrCell ''Good food'', StrCell ''http://x'']],
            close_calls = 1\<rparr>,
          \<lparr>file_loc_id = 9, file_slug = ''uptown'', content = [ex_header_row],
            close_calls = 1\<rparr>]"
proof -
  have d: "distinct (map loc_id (locations ex_args))"
    by code_simp
  have err: "fst (try_block ex_args ex_reviews_broken) = Some (ReviewsColumnCount 3 3)"
    by code_simp
  have fs: "files (snd (try_block ex_args ex_reviews_broken))
       = [\<lparr>file_loc_id = 3, file_slug = ''downtown'',
            content =
              [ex_header_row,
               [IntCell 3, StrCell ''Downtown'', StrCell ''r1'', StrCell ''2020-01-02'',
                StrCell ''5'', StrCell ''google'', StrCell ''Ann'', StrCell ''Title'',
                StrCell ''Good food'', StrCell ''http://x'']],
            close_calls = 0\<rparr>,
          \<lparr>file_loc_id = 9, file_slug = ''uptown'', content = [ex_header_row],
            close_calls = 0\<rparr>]"
    by code_simp
  from export_reviews_closes_files [OF d, of ex_reviews_broken] d err fs show ?thesis
    by simp
qed

text \<open>
  C9, as stated, fails: \<open>export_reviews\<close> has no \<^verbatim>\<open>return\<close> statement, so what
  its caller gets is \<^verbatim>\<open>None\<close> and not the counts, here one review for each of
  the locations 3 and 9.
\<close>

theorem export_reviews_returns_counts_counterexample:
  "fst (export_reviews ex_args ex_reviews_sql) = Inr PyNone
   \<and> fst (export_reviews ex_args ex_reviews_sql) \<noteq> Inr (PyCounts [(3, 1), (9, 1)])
   \<and> counts (snd (export_reviews ex_args ex_reviews_sql)) 3 = Some 1
   \<and> counts (snd (export_reviews ex_args ex_reviews_sql)) 9 = Some 1"
  by code_simp

text \<open>
  C9, amended. When \<open>export_reviews\<close> completes, it returns \<^verbatim>\<open>None\<close>; it prints
  the total, which is the sum of the counters over the location ids, and then one
  line for every location with the counter of its id. With pairwise distinct location
  ids, the counter of a location is the number of data rows in its file.
\<close>

theorem export_reviews_returns_none:
  "(fst (export_reviews args f) = Inr v \<longrightarrow>
      v = PyNone
      \<and> printed (snd (export_reviews args f))
          = printed (snd (try_block args f))
            @ Done (sum_list (map (count_of (counts (snd (export_reviews args f))))
                               (remdups (map loc_id (locations args)))))
            # map (\<lambda>loc. LocationCount (loc_id loc) (loc_name loc)
                           (count_of (counts (snd (export_reviews args f))) (loc_id loc)))
                  (locations args))
   \<and> (distinct (map loc_id (locations args)) \<longrightarrow>
        (\<forall>i < length (locations args).
           length (content (files (snd (export_reviews args f)) ! i))
             = Suc (count_of (counts (snd (export_reviews args f)))
                     (loc_id (locations args ! i)))))"
proof (intro conjI impI)
  assume ok: "fst (export_reviews args f) = Inr v"
  then show "v = PyNone"
    by (auto simp: export_reviews_unfold split: option.splits)
  from ok show "printed (snd (export_reviews args f))
          = printed (snd (try_block args f))
            @ Done (sum_list (map (count_of (counts (snd (export_reviews args f))))
                               (remdups (map loc_id (locations args)))))
            # map (\<lambda>loc. LocationCount (loc_id loc) (loc_name loc)
                           (count_of (counts (snd (export_reviews args f))) (loc_id loc)))
                  (locations args)"
    by (auto simp: export_reviews_unfold total_of_def split: option.splits)
next
  assume d: "distinct (map loc_id (locations args))"
  from counted_try_block [OF d, of f]
  have co: "\<forall>i < length (locations args).
      length (content (files (snd (try_block args f)) ! i))
        = Suc (count_of (counts (snd (try_block args f))) (loc_id (locations args ! i)))"
    by (simp add: counted_def)
  then show "\<forall>i < length (locations args).
           length (content (files (snd (export_reviews args f)) ! i))
             = Suc (count_of (counts (snd (export_reviews args f)))
                     (loc_id (locations args ! i)))"
    by (simp add: closed_files [OF d] try_block_files(2) export_reviews_counts)
qed

theorem export_reviews_returns_none_witness:
  "fst (export_reviews ex_args ex_reviews_sql) = Inr PyNone
   \<and> distinct (map loc_id (locations ex_args))
   \<and> printed (snd (export_reviews ex_args ex_reviews_sql))
       = [Done 2, LocationCount 3 ''Downtown'' 1, LocationCount 9 ''Uptown'' 1]
   \<and> length (content (files (snd (export_reviews ex_args ex_reviews_sql)) ! 0))
       = Suc (count_of (counts (snd (export_reviews ex_args ex_reviews_sql)))
               (loc_id (locations ex_args ! 0)))
   \<and> length (content (files (snd (export_reviews ex_args ex_reviews_sql)) ! 1))
       = Suc (count_of (counts (snd (export_reviews ex_args ex_reviews_sql)))
               (loc_id (locations ex_args ! 1)))"
proof -
  have two: "length (locations ex_args) = 2"
    by code_simp
  have ok: "fst (export_reviews ex_args ex_reviews_sql) = Inr PyNone"
    by code_simp
  have d: "distinct (map loc_id (locations ex_args))"
    by code_simp
  have vals: "printed (snd (try_block ex_args ex_reviews_sql)) = []"
    "sum_list (map (count_of (counts (snd (export_reviews ex_args ex_reviews_sql))))
       (remdups (map loc_id (locations ex_args)))) = 2"
    "map (\<lambda>loc. LocationCount (loc_id loc) (loc_name loc)
            (count_of (counts (snd (export_reviews ex_args ex_reviews_sql))) (loc_id loc)))
       (locations ex_args)
      = [LocationCount 3 ''Downtown'' 1, LocationCount 9 ''Uptown'' 1]"
    by code_simp+
  from export_reviews_returns_none [of ex_args ex_reviews_sql PyNone] ok d vals two
  show ?thesis
    by simp
qed

text \<open>
  C4. The reviews scan is a loop of its own inside \<open>export_reviews\<close>, not a call of
  \<open>iter_copy_rows\<close>. On a reviews file with no COPY block for the reviews table, and
  on one whose block has no terminator, the reader fails with "block not found" and
  "did not terminate", while \<open>export_reviews\<close> completes, here with zero and with
  two exported rows.
\<close>

theorem export_reviews_missing_block:
  "ended (iter_copy_rows ex_other_block ''reviews_review'') = Some CopyBlockNotFound
   \<and> fst (export_reviews ex_args ex_other_block) = Inr PyNone
   \<and> printed (snd (export_reviews ex_args ex_other_block))
       = [Done 0, LocationCount 3 ''Downtown'' 0, LocationCount 9 ''Uptown'' 0]
   \<and> ended (iter_copy_rows (take 3 ex_reviews_sql) ''reviews_review'')
       = Some CopyBlockNotTerminated
   \<and> fst (export_reviews ex_args (take 3 ex_reviews_sql)) = Inr PyNone"
  by code_simp

end
